theory Spec2Isabelle
  imports Complex_Main "HOL-Library.Multiset"
begin

section \<open>Forecast verification notebook: nearest grid point and RMSE\<close>

text \<open>
  The notebook \<^verbatim>\<open>notebooks/verification.ipynb\<close> defines two functions,
  \<^verbatim>\<open>lat_lon_2D_index\<close> and \<^verbatim>\<open>rmse\<close>, both written with NumPy array
  operations. They are embedded here operation by operation.

  Errors. Every place where NumPy raises is a branch that returns \<open>Inl\<close>.

  Numbers in \<^verbatim>\<open>lat_lon_2D_index\<close>. An array element is a binary64 value: a number
  or NaN. The function's answer depends on how binary64 rounds (a rounded
  intermediate result can leave the domain of \<^verbatim>\<open>np.sqrt\<close>), so the arithmetic is
  not taken to be exact: the rounding of an exact result and the library's sine,
  cosine and arc tangent are parameters of the embedding, and what a theorem needs of
  them is among its hypotheses. Overflow to infinity is not represented.

  Numbers in \<^verbatim>\<open>rmse\<close>. The elements are reals and the arithmetic is exact; the one
  NaN that arises, the mean of an empty array, is a value of the result type.
\<close>

subsection \<open>Errors\<close>

datatype error =
    BroadcastError    \<comment> \<open>ValueError: operands could not be broadcast together\<close>
  | EmptyArgminError  \<comment> \<open>ValueError: attempt to get argmin of an empty sequence\<close>
  | UnravelError      \<comment> \<open>ValueError: index is out of bounds for array with size\<close>
  | IndexError        \<comment> \<open>IndexError: index is out of bounds for axis\<close>

definition bind_err :: "error + 'a \<Rightarrow> ('a \<Rightarrow> error + 'b) \<Rightarrow> error + 'b" where
  "bind_err r f = (case r of Inl e \<Rightarrow> Inl e | Inr v \<Rightarrow> f v)"

subsection \<open>Floating-point values and operations\<close>

text \<open>A float: a number or NaN.\<close>

datatype npfloat = NaN | Val real

text \<open>
  The arithmetic the notebook's functions are built on, as a parameter:
  \<open>rnd\<close> maps the exact result of an addition, subtraction, multiplication, division
  by 2 or square root to the binary64 number that is returned; \<open>fsin\<close>, \<open>fcos\<close> and
  \<open>farctan2\<close> are the library's \<^verbatim>\<open>sin\<close>, \<^verbatim>\<open>cos\<close> and \<^verbatim>\<open>arctan2\<close> on numbers.
  A binary64 number is a fixed point of \<open>rnd\<close>.
\<close>

record fpu =
  rnd :: "real \<Rightarrow> real"
  fsin :: "real \<Rightarrow> real"
  fcos :: "real \<Rightarrow> real"
  farctan2 :: "real \<Rightarrow> real \<Rightarrow> real"

text \<open>An operation on numbers, on floats: NaN in, NaN out.\<close>

fun lift1 :: "(real \<Rightarrow> real) \<Rightarrow> npfloat \<Rightarrow> npfloat" where
  "lift1 g NaN = NaN"
| "lift1 g (Val u) = Val (g u)"

fun lift2 :: "(real \<Rightarrow> real \<Rightarrow> real) \<Rightarrow> npfloat \<Rightarrow> npfloat \<Rightarrow> npfloat" where
  "lift2 g (Val u) (Val v) = Val (g u v)"
| "lift2 g a b = NaN"

definition fadd :: "fpu \<Rightarrow> npfloat \<Rightarrow> npfloat \<Rightarrow> npfloat" where
  "fadd fp = lift2 (\<lambda>u v. rnd fp (u + v))"

definition fsub :: "fpu \<Rightarrow> npfloat \<Rightarrow> npfloat \<Rightarrow> npfloat" where
  "fsub fp = lift2 (\<lambda>u v. rnd fp (u - v))"

definition fmul :: "fpu \<Rightarrow> npfloat \<Rightarrow> npfloat \<Rightarrow> npfloat" where
  "fmul fp = lift2 (\<lambda>u v. rnd fp (u * v))"

text \<open>\<^verbatim>\<open>np.sqrt\<close>: NaN below zero (NumPy warns and returns it).\<close>

fun fsqrt :: "fpu \<Rightarrow> npfloat \<Rightarrow> npfloat" where
  "fsqrt fp NaN = NaN"
| "fsqrt fp (Val u) = (if u < 0 then NaN else Val (rnd fp (sqrt u)))"

subsection \<open>Two-dimensional arrays\<close>

text \<open>
  A 2D \<^verbatim>\<open>ndarray\<close> is its shape and its elements in row-major (C) order, which is
  the order \<^verbatim>\<open>argmin\<close> and \<^verbatim>\<open>unravel_index\<close> work in.
\<close>

record ndarray =
  shape :: "nat \<times> nat"
  data :: "npfloat list"

definition wf_array :: "ndarray \<Rightarrow> bool" where
  "wf_array A \<longleftrightarrow> length (data A) = fst (shape A) * snd (shape A)"

definition np_ones :: "nat \<times> nat \<Rightarrow> ndarray" where
  "np_ones sh = \<lparr>shape = sh, data = replicate (fst sh * snd sh) (Val 1)\<rparr>"

text \<open>A ufunc of one array, or of an array and a scalar: elementwise, same shape.\<close>

definition np_map :: "(npfloat \<Rightarrow> npfloat) \<Rightarrow> ndarray \<Rightarrow> ndarray" where
  "np_map f A = \<lparr>shape = shape A, data = map f (data A)\<rparr>"

text \<open>
  A ufunc of two arrays broadcasts: along each axis the lengths must be equal
  or one of them must be 1, and an axis of length 1 is read at index 0
  throughout. Anything else raises.
\<close>

definition broadcast_dim :: "nat \<Rightarrow> nat \<Rightarrow> nat option" where
  "broadcast_dim a b =
     (if a = b then Some a else if a = 1 then Some b else if b = 1 then Some a else None)"

definition broadcast_shapes :: "nat \<times> nat \<Rightarrow> nat \<times> nat \<Rightarrow> (nat \<times> nat) option" where
  "broadcast_shapes s t =
     (case broadcast_dim (fst s) (fst t) of
        None \<Rightarrow> None
      | Some m \<Rightarrow> (case broadcast_dim (snd s) (snd t) of
                    None \<Rightarrow> None
                  | Some n \<Rightarrow> Some (m, n)))"

definition bcast_get :: "ndarray \<Rightarrow> nat \<Rightarrow> nat \<Rightarrow> npfloat" where
  "bcast_get A i j =
     data A ! ((if fst (shape A) = 1 then 0 else i) * snd (shape A)
               + (if snd (shape A) = 1 then 0 else j))"

definition np_binop :: "(npfloat \<Rightarrow> npfloat \<Rightarrow> npfloat) \<Rightarrow> ndarray \<Rightarrow> ndarray \<Rightarrow> error + ndarray" where
  "np_binop f A B =
     (case broadcast_shapes (shape A) (shape B) of
        None \<Rightarrow> Inl BroadcastError
      | Some (m, n) \<Rightarrow>
          Inr \<lparr>shape = (m, n),
               data = map (\<lambda>k. f (bcast_get A (k div n) (k mod n))
                                 (bcast_get B (k div n) (k mod n)))
                          [0..<m * n]\<rparr>)"

subsection \<open>The NumPy functions the notebook calls\<close>

text \<open>
  \<^verbatim>\<open>argmin\<close> scans the flattened array once. It keeps the first position of the
  smallest element seen, and an element replaces the kept one when it is not
  greater or equal, which a NaN never is: the scan stops at the first NaN and returns
  its position. On an empty array it raises.
\<close>

fun argmin_loop :: "real \<Rightarrow> nat \<Rightarrow> nat \<Rightarrow> npfloat list \<Rightarrow> nat" where
  "argmin_loop mp min_ind i [] = min_ind"
| "argmin_loop mp min_ind i (NaN # vs) = i"
| "argmin_loop mp min_ind i (Val v # vs) =
     (if \<not> mp \<le> v then argmin_loop v i (Suc i) vs else argmin_loop mp min_ind (Suc i) vs)"

fun np_argmin :: "npfloat list \<Rightarrow> error + nat" where
  "np_argmin [] = Inl EmptyArgminError"
| "np_argmin (NaN # vs) = Inr 0"
| "np_argmin (Val v # vs) = Inr (argmin_loop v 0 1 vs)"

text \<open>\<^verbatim>\<open>np.unravel_index(k, (m, n))\<close>: the row and column of flat position \<open>k\<close>.\<close>

definition unravel_index :: "nat \<Rightarrow> nat \<times> nat \<Rightarrow> error + nat \<times> nat" where
  "unravel_index k sh =
     (if k < fst sh * snd sh then Inr (k div snd sh, k mod snd sh) else Inl UnravelError)"

text \<open>
  Reading one element, \<^verbatim>\<open>A[i, j]\<close> with non-negative indices, as the notebook does
  with the index it gets back.
\<close>

definition getitem :: "ndarray \<Rightarrow> nat \<times> nat \<Rightarrow> error + npfloat" where
  "getitem A ix =
     (if fst ix < fst (shape A) \<and> snd ix < snd (shape A)
      then Inr (data A ! (fst ix * snd (shape A) + snd ix))
      else Inl IndexError)"

subsection \<open>\<^verbatim>\<open>lat_lon_2D_index\<close>\<close>

text \<open>
  \<^verbatim>\<open>R = 6373.*1000.\<close>: both factors and the product are binary64 numbers, so the
  product is exact. \<^verbatim>\<open>rad = np.pi/180.\<close>: the binary64 number nearest \<open>pi\<close>, divided
  and rounded.
\<close>

definition R :: real where
  "R = 6373 * 1000"

definition rad :: "fpu \<Rightarrow> real" where
  "rad fp = rnd fp (rnd fp pi / 180)"

text \<open>
  The body of the function up to the distance array \<open>d\<close>. The target \<open>lat1\<close>, \<open>lon1\<close>
  is a pair of Python floats. \<^verbatim>\<open>rad*v/2.\<close> is a rounded product, then halved and
  rounded (\<open>half\<close>); \<^verbatim>\<open>(...)**2\<close> is the square, one rounded product (\<open>sin2\<close>); nothing
  keeps \<open>a\<close> within the domain of the two square roots.
\<close>

definition distances :: "fpu \<Rightarrow> ndarray \<Rightarrow> ndarray \<Rightarrow> real \<Rightarrow> real \<Rightarrow> error + ndarray" where
  "distances fp y x lat1 lon1 =
     (let x1 = np_map (\<lambda>v. fmul fp v (Val lon1)) (np_ones (shape x));
          y1 = np_map (\<lambda>v. fmul fp v (Val lat1)) (np_ones (shape y))
      in bind_err (np_binop (fsub fp) x x1) (\<lambda>xd.
         bind_err (np_binop (fsub fp) y y1) (\<lambda>yd.
         (let dlon = np_map (lift1 abs) xd;
              dlat = np_map (lift1 abs) yd;
              half = (\<lambda>v. lift1 (\<lambda>u. rnd fp (u / 2)) (fmul fp (Val (rad fp)) v));
              sin2 = (\<lambda>v. (let s = lift1 (fsin fp) (half v) in fmul fp s s));
              cosr = (\<lambda>v. lift1 (fcos fp) (fmul fp (Val (rad fp)) v))
          in bind_err (np_binop (fmul fp) (np_map cosr y1) (np_map cosr y)) (\<lambda>cc.
             bind_err (np_binop (fmul fp) cc (np_map sin2 dlon)) (\<lambda>t.
             bind_err (np_binop (fadd fp) (np_map sin2 dlat) t) (\<lambda>a.
             bind_err (np_binop (lift2 (farctan2 fp))
                         (np_map (fsqrt fp) a)
                         (np_map (\<lambda>v. fsqrt fp (fsub fp (Val 1) v)) a)) (\<lambda>q.
             (let c = np_map (\<lambda>v. fmul fp (Val 2) v) q;
                  d = np_map (\<lambda>v. fmul fp (Val R) v) c
              in Inr d)))))))))"

definition lat_lon_2D_index :: "fpu \<Rightarrow> ndarray \<Rightarrow> ndarray \<Rightarrow> real \<Rightarrow> real \<Rightarrow> error + nat \<times> nat" where
  "lat_lon_2D_index fp y x lat1 lon1 =
     bind_err (distances fp y x lat1 lon1) (\<lambda>d.
     bind_err (np_argmin (data d)) (\<lambda>k.
     unravel_index k (shape d)))"

subsection \<open>\<^verbatim>\<open>rmse\<close>\<close>

text \<open>
  The series the notebook passes to \<^verbatim>\<open>rmse\<close> are one-dimensional arrays: a list
  of elements, the shape being its length. Subtraction broadcasts as above,
  along the single axis.
\<close>

definition np_binop1 :: "(real \<Rightarrow> real \<Rightarrow> real) \<Rightarrow> real list \<Rightarrow> real list \<Rightarrow> error + real list" where
  "np_binop1 f A B =
     (case broadcast_dim (length A) (length B) of
        None \<Rightarrow> Inl BroadcastError
      | Some n \<Rightarrow>
          Inr (map (\<lambda>k. f (A ! (if length A = 1 then 0 else k))
                          (B ! (if length B = 1 then 0 else k)))
                   [0..<n]))"

text \<open>
  \<^verbatim>\<open>mean\<close> of an empty array is 0/0, which is NaN (NumPy prints a RuntimeWarning
  and returns it); \<^verbatim>\<open>np.sqrt\<close> of NaN or of a negative number is NaN.
\<close>

definition np_mean :: "real list \<Rightarrow> npfloat" where
  "np_mean xs = (if xs = [] then NaN else Val (sum_list xs / real (length xs)))"

fun np_sqrt :: "npfloat \<Rightarrow> npfloat" where
  "np_sqrt NaN = NaN"
| "np_sqrt (Val v) = (if v < 0 then NaN else Val (sqrt v))"

definition rmse :: "real list \<Rightarrow> real list \<Rightarrow> error + npfloat" where
  "rmse predictions targets =
     bind_err (np_binop1 (-) predictions targets) (\<lambda>e.
     Inr (np_sqrt (np_mean (map (\<lambda>v. v\<^sup>2) e))))"

subsection \<open>Exact arithmetic, and the formula of the specification\<close>

text \<open>
  \<^verbatim>\<open>np.arctan2(y, x)\<close> in exact arithmetic: the angle of the point \<open>(x, y)\<close>, in
  \<open>(-pi, pi]\<close>, and 0 at the origin.
\<close>

definition np_arctan2 :: "real \<Rightarrow> real \<Rightarrow> real" where
  "np_arctan2 y x =
     (if 0 < x then arctan (y / x)
      else if x < 0 then (if 0 \<le> y then arctan (y / x) + pi else arctan (y / x) - pi)
      else if 0 < y then pi / 2
      else if y < 0 then - (pi / 2)
      else 0)"

text \<open>The arithmetic that does not round.\<close>

definition exact_fpu :: fpu where
  "exact_fpu = \<lparr>rnd = (\<lambda>u. u), fsin = sin, fcos = cos, farctan2 = np_arctan2\<rparr>"

text \<open>
  The haversine distance as the specification words it, for one cell: the
  central angle term \<open>a\<close>, the angular distance \<open>c = 2 atan2(sqrt a, sqrt (1 - a))\<close>
  and the distance \<open>R c\<close> with \<open>R\<close> = 6,373,000 m, the differences in degrees being
  converted to radians.
\<close>

definition haversine_a :: "real \<Rightarrow> real \<Rightarrow> real \<Rightarrow> real \<Rightarrow> real" where
  "haversine_a lat1 lon1 lat lon =
     (sin (pi / 180 * (lat - lat1) / 2))\<^sup>2
     + cos (pi / 180 * lat1) * cos (pi / 180 * lat) * (sin (pi / 180 * (lon - lon1) / 2))\<^sup>2"

definition haversine_spec :: "real \<Rightarrow> real \<Rightarrow> real \<Rightarrow> real \<Rightarrow> real" where
  "haversine_spec lat1 lon1 lat lon =
     (let a = haversine_a lat1 lon1 lat lon;
          c = 2 * np_arctan2 (sqrt a) (sqrt (1 - a))
      in 6373000 * c)"

subsection \<open>What the proofs use of binary64 arithmetic\<close>


subsection \<open>Notation for the proofs\<close>

text \<open>Element \<open>(i, j)\<close> of an array, for indices within its shape.\<close>

definition cell :: "ndarray \<Rightarrow> nat \<Rightarrow> nat \<Rightarrow> npfloat" where
  "cell A i j = data A ! (i * snd (shape A) + j)"

text \<open>An array given by its shape and a function of the flat position.\<close>

definition tab :: "nat \<times> nat \<Rightarrow> (nat \<Rightarrow> npfloat) \<Rightarrow> ndarray" where
  "tab sh g = \<lparr>shape = sh, data = map g [0..<fst sh * snd sh]\<rparr>"

text \<open>
  What \<^const>\<open>distances\<close> computes for one cell of latitude \<open>yv\<close> and longitude \<open>xv\<close>:
  the term \<open>a\<close>, and the distance from \<open>a\<close>.
\<close>

definition a_cell :: "fpu \<Rightarrow> real \<Rightarrow> real \<Rightarrow> npfloat \<Rightarrow> npfloat \<Rightarrow> npfloat" where
  "a_cell fp lat1 lon1 yv xv =
     (let x1 = fmul fp (Val 1) (Val lon1);
          y1 = fmul fp (Val 1) (Val lat1);
          dlon = lift1 abs (fsub fp xv x1);
          dlat = lift1 abs (fsub fp yv y1);
          half = (\<lambda>v. lift1 (\<lambda>u. rnd fp (u / 2)) (fmul fp (Val (rad fp)) v));
          sin2 = (\<lambda>v. (let s = lift1 (fsin fp) (half v) in fmul fp s s));
          cosr = (\<lambda>v. lift1 (fcos fp) (fmul fp (Val (rad fp)) v))
      in fadd fp (sin2 dlat) (fmul fp (fmul fp (cosr y1) (cosr yv)) (sin2 dlon)))"

definition d_of_a :: "fpu \<Rightarrow> npfloat \<Rightarrow> npfloat" where
  "d_of_a fp a =
     fmul fp (Val R) (fmul fp (Val 2)
       (lift2 (farctan2 fp) (fsqrt fp a) (fsqrt fp (fsub fp (Val 1) a))))"

section \<open>Arrays and elementwise operations\<close>

lemma tab_of_wf: "wf_array A \<Longrightarrow> A = tab (shape A) (\<lambda>k. data A ! k)"
proof -
  assume "wf_array A"
  then have "map (\<lambda>k. data A ! k) [0..<fst (shape A) * snd (shape A)] = data A"
    using map_nth[of "data A"] by (simp add: wf_array_def)
  then show ?thesis by (simp add: tab_def)
qed

lemma shape_tab [simp]: "shape (tab sh g) = sh"
  by (simp add: tab_def)

lemma data_tab: "data (tab sh g) = map g [0..<fst sh * snd sh]"
  by (simp add: tab_def)

lemma wf_tab [simp]: "wf_array (tab sh g)"
  by (simp add: tab_def wf_array_def)

lemma np_ones_tab: "np_ones sh = tab sh (\<lambda>k. Val 1)"
  by (simp add: np_ones_def tab_def map_replicate_const)

lemma np_map_tab: "np_map f (tab sh g) = tab sh (\<lambda>k. f (g k))"
  by (simp add: np_map_def tab_def)

lemma broadcast_dim_same [simp]: "broadcast_dim a a = Some a"
  by (simp add: broadcast_dim_def)

lemma broadcast_shapes_same [simp]: "broadcast_shapes s s = Some s"
  by (simp add: broadcast_shapes_def)

lemma flat_index:
  assumes "(k::nat) < m * n"
  shows "(if m = 1 then 0 else k div n) * n + (if n = 1 then 0 else k mod n) = k"
proof -
  have r: "(if m = 1 then 0 else k div n) = k div n"
  proof (cases "m = 1")
    case True
    with assms have "k < n" by simp
    then show ?thesis by simp
  next
    case False
    then show ?thesis by simp
  qed
  have c: "(if n = 1 then 0 else k mod n) = k mod n"
    by simp
  show ?thesis
    unfolding r c by simp
qed

lemma bcast_get_tab:
  "k < m * n \<Longrightarrow> bcast_get (tab (m, n) g) (k div n) (k mod n) = g k"
proof -
  assume k: "k < m * n"
  have "bcast_get (tab (m, n) g) (k div n) (k mod n)
        = map g [0..<m * n] ! ((if m = 1 then 0 else k div n) * n + (if n = 1 then 0 else k mod n))"
    by (simp add: bcast_get_def tab_def)
  also have "\<dots> = map g [0..<m * n] ! k"
    by (simp only: flat_index[OF k])
  also have "\<dots> = g k"
    using k by simp
  finally show ?thesis .
qed

lemma np_binop_tab:
  "np_binop f (tab sh g) (tab sh h) = Inr (tab sh (\<lambda>k. f (g k) (h k)))"
  by (cases sh) (simp add: np_binop_def tab_def[of _ "\<lambda>k. f (g k) (h k)"] bcast_get_tab)

section \<open>The distance array, cell by cell\<close>

text \<open>
  For grids of one shape no operation of \<^const>\<open>distances\<close> raises, and the array \<open>d\<close> holds
  at each position what \<^const>\<open>a_cell\<close> and \<^const>\<open>d_of_a\<close> compute from the latitude and
  longitude at that position.
\<close>

lemma distances_tab:
  "distances fp (tab sh gy) (tab sh gx) lat1 lon1
   = Inr (tab sh (\<lambda>k. d_of_a fp (a_cell fp lat1 lon1 (gy k) (gx k))))"
  by (simp add: distances_def Let_def bind_err_def np_ones_tab np_map_tab np_binop_tab
      d_of_a_def a_cell_def)

lemma distances_same_shape:
  assumes "wf_array y" "wf_array x" "shape y = shape x"
  shows "distances fp y x lat1 lon1
         = Inr (tab (shape y) (\<lambda>k. d_of_a fp (a_cell fp lat1 lon1 (data y ! k) (data x ! k))))"
proof -
  have "distances fp y x lat1 lon1
        = distances fp (tab (shape y) (\<lambda>k. data y ! k)) (tab (shape y) (\<lambda>k. data x ! k)) lat1 lon1"
    using tab_of_wf[OF assms(1)] tab_of_wf[OF assms(2)] assms(3) by simp
  then show ?thesis by (simp only: distances_tab)
qed

lemma flat_less:
  assumes "(i::nat) < m" "j < n"
  shows "i * n + j < m * n"
proof -
  have "i * n + j < i * n + n" using assms(2) by simp
  also have "\<dots> = Suc i * n" by simp
  also have "\<dots> \<le> m * n" using assms(1) by (intro mult_le_mono1) simp
  finally show ?thesis .
qed

lemma flat_less_iff:
  assumes "(j::nat) < n" "j' < n"
  shows "i * n + j < i' * n + j' \<longleftrightarrow> i < i' \<or> (i = i' \<and> j < j')"
proof (cases i i' rule: linorder_cases)
  case less
  then have "Suc i * n \<le> i' * n" by (intro mult_le_mono1) simp
  then have "i * n + j < i' * n + j'" using assms(1) by simp
  with less show ?thesis by simp
next
  case equal
  then show ?thesis by simp
next
  case greater
  then have "Suc i' * n \<le> i * n" by (intro mult_le_mono1) simp
  then have "i' * n + j' < i * n + j" using assms(2) by simp
  with greater show ?thesis by simp
qed

lemma cell_tab: "i < m \<Longrightarrow> j < n \<Longrightarrow> cell (tab (m, n) g) i j = g (i * n + j)"
  using flat_less[of i m j n] by (simp add: cell_def tab_def)

lemma cell_flat:
  assumes "shape d = (m, n)" "k < m * n"
  shows "cell d (k div n) (k mod n) = data d ! k"
  using assms by (simp add: cell_def)

lemma distances_cells:
  assumes "wf_array y" "wf_array x" "shape y = (m, n)" "shape x = (m, n)"
  shows "\<exists>d. distances fp y x lat1 lon1 = Inr d \<and> shape d = (m, n) \<and> length (data d) = m * n
           \<and> (\<forall>i<m. \<forall>j<n. cell d i j
                 = d_of_a fp (a_cell fp lat1 lon1 (cell y i j) (cell x i j)))"
proof -
  let ?D = "\<lambda>k. d_of_a fp (a_cell fp lat1 lon1 (data y ! k) (data x ! k))"
  have "distances fp y x lat1 lon1 = Inr (tab (m, n) ?D)"
    using distances_same_shape[OF assms(1,2)] assms(3,4) by simp
  moreover have "\<forall>i<m. \<forall>j<n. cell (tab (m, n) ?D) i j
                   = d_of_a fp (a_cell fp lat1 lon1 (cell y i j) (cell x i j))"
    by (simp add: cell_tab) (simp add: cell_def assms(3,4))
  ultimately show ?thesis by (simp add: data_tab)
qed

section \<open>\<^verbatim>\<open>argmin\<close>: the first NaN, or else the first minimum\<close>

lemma argmin_loop_vals:
  assumes "min_ind < length pre" "i = length pre" "pre ! min_ind = mp"
    and "\<forall>k<length pre. mp \<le> pre ! k" "\<forall>k<min_ind. mp < pre ! k"
  shows "argmin_loop mp min_ind i (map Val us) < length (pre @ us)
         \<and> (\<forall>k<length (pre @ us). (pre @ us) ! argmin_loop mp min_ind i (map Val us) \<le> (pre @ us) ! k)
         \<and> (\<forall>k<argmin_loop mp min_ind i (map Val us).
               (pre @ us) ! argmin_loop mp min_ind i (map Val us) < (pre @ us) ! k)"
  using assms
proof (induction us arbitrary: pre mp min_ind i)
  case Nil
  then show ?case by simp
next
  case (Cons v vs)
  let ?pre = "pre @ [v]"
  show ?case
  proof (cases "v < mp")
    case True
    have "argmin_loop v i (Suc i) (map Val vs) < length (?pre @ vs)
         \<and> (\<forall>k<length (?pre @ vs). (?pre @ vs) ! argmin_loop v i (Suc i) (map Val vs) \<le> (?pre @ vs) ! k)
         \<and> (\<forall>k<argmin_loop v i (Suc i) (map Val vs).
               (?pre @ vs) ! argmin_loop v i (Suc i) (map Val vs) < (?pre @ vs) ! k)"
    proof (rule Cons.IH)
      show "i < length ?pre" using Cons.prems(2) by simp
      show "Suc i = length ?pre" using Cons.prems(2) by simp
      show "?pre ! i = v" using Cons.prems(2) by simp
      show "\<forall>k<length ?pre. v \<le> ?pre ! k"
        using Cons.prems(2,4) True by (auto simp: nth_append less_Suc_eq)
      show "\<forall>k<i. v < ?pre ! k"
        using Cons.prems(2,4) True by (auto simp: nth_append)
    qed
    with True show ?thesis by (simp add: not_le)
  next
    case False
    have "argmin_loop mp min_ind (Suc i) (map Val vs) < length (?pre @ vs)
         \<and> (\<forall>k<length (?pre @ vs). (?pre @ vs) ! argmin_loop mp min_ind (Suc i) (map Val vs) \<le> (?pre @ vs) ! k)
         \<and> (\<forall>k<argmin_loop mp min_ind (Suc i) (map Val vs).
               (?pre @ vs) ! argmin_loop mp min_ind (Suc i) (map Val vs) < (?pre @ vs) ! k)"
    proof (rule Cons.IH)
      show "min_ind < length ?pre" using Cons.prems(1) by simp
      show "Suc i = length ?pre" using Cons.prems(2) by simp
      show "?pre ! min_ind = mp" using Cons.prems(1,3) by (simp add: nth_append)
      show "\<forall>k<length ?pre. mp \<le> ?pre ! k"
        using Cons.prems(4) False by (auto simp: nth_append less_Suc_eq)
      show "\<forall>k<min_ind. mp < ?pre ! k"
        using Cons.prems(1,5) by (auto simp: nth_append)
    qed
    with False show ?thesis by (simp add: not_le)
  qed
qed

lemma argmin_loop_nan:
  assumes "NaN \<in> set vs"
  shows "\<exists>k<length vs. argmin_loop mp min_ind i vs = i + k \<and> vs ! k = NaN
            \<and> (\<forall>k'<k. vs ! k' \<noteq> NaN)"
  using assms
proof (induction vs arbitrary: mp min_ind i)
  case Nil
  then show ?case by simp
next
  case (Cons a vs)
  show ?case
  proof (cases a)
    case NaN
    then have "0 < length (a # vs) \<and> argmin_loop mp min_ind i (a # vs) = i + 0
               \<and> (a # vs) ! 0 = NaN \<and> (\<forall>k'<0. (a # vs) ! k' \<noteq> NaN)"
      by simp
    then show ?thesis by blast
  next
    case (Val v)
    with Cons.prems have in_vs: "NaN \<in> set vs" by simp
    obtain mp' min_ind' where step:
      "argmin_loop mp min_ind i (a # vs) = argmin_loop mp' min_ind' (Suc i) vs"
      using Val by (cases "\<not> mp \<le> v") auto
    from Cons.IH[OF in_vs, of mp' min_ind' "Suc i"] obtain k where k:
      "k < length vs" "argmin_loop mp' min_ind' (Suc i) vs = Suc i + k" "vs ! k = NaN"
      "\<forall>k'<k. vs ! k' \<noteq> NaN"
      by blast
    have "\<forall>k'<Suc k. (a # vs) ! k' \<noteq> NaN"
      using k(4) Val by (auto simp: nth_Cons split: nat.splits)
    with k(1,2,3) step have "Suc k < length (a # vs)
        \<and> argmin_loop mp min_ind i (a # vs) = i + Suc k \<and> (a # vs) ! Suc k = NaN
        \<and> (\<forall>k'<Suc k. (a # vs) ! k' \<noteq> NaN)"
      by simp
    then show ?thesis by blast
  qed
qed

lemma no_nan_vals: "NaN \<notin> set xs \<Longrightarrow> \<exists>us. xs = map Val us"
proof (induction xs)
  case Nil
  then show ?case by simp
next
  case (Cons a xs)
  then obtain us where "xs = map Val us" by auto
  moreover from Cons.prems obtain u where "a = Val u" by (cases a) auto
  ultimately have "a # xs = map Val (u # us)" by simp
  then show ?case by (rule exI)
qed

lemma np_argmin_vals:
  assumes "us \<noteq> []"
  shows "\<exists>r. np_argmin (map Val us) = Inr r \<and> r < length us
             \<and> (\<forall>k<length us. us ! r \<le> us ! k) \<and> (\<forall>k<r. us ! r < us ! k)"
proof -
  from assms obtain v vs where us: "us = v # vs" by (cases us) auto
  have "argmin_loop v 0 1 (map Val vs) < length ([v] @ vs)
         \<and> (\<forall>k<length ([v] @ vs). ([v] @ vs) ! argmin_loop v 0 1 (map Val vs) \<le> ([v] @ vs) ! k)
         \<and> (\<forall>k<argmin_loop v 0 1 (map Val vs).
               ([v] @ vs) ! argmin_loop v 0 1 (map Val vs) < ([v] @ vs) ! k)"
    by (rule argmin_loop_vals) simp_all
  then show ?thesis by (simp add: us)
qed

lemma np_argmin_nan:
  assumes "NaN \<in> set xs"
  shows "\<exists>r. np_argmin xs = Inr r \<and> r < length xs \<and> xs ! r = NaN \<and> (\<forall>k<r. xs ! k \<noteq> NaN)"
proof (cases xs)
  case Nil
  with assms show ?thesis by simp
next
  case (Cons a vs)
  show ?thesis
  proof (cases a)
    case NaN
    then have "np_argmin xs = Inr 0 \<and> 0 < length xs \<and> xs ! 0 = NaN \<and> (\<forall>k<0. xs ! k \<noteq> NaN)"
      using Cons by simp
    then show ?thesis by blast
  next
    case (Val v)
    with assms Cons have "NaN \<in> set vs" by simp
    from argmin_loop_nan[OF this, of v 0 1] obtain k where k:
      "k < length vs" "argmin_loop v 0 1 vs = 1 + k" "vs ! k = NaN" "\<forall>k'<k. vs ! k' \<noteq> NaN"
      by blast
    have "\<forall>k'<Suc k. xs ! k' \<noteq> NaN"
      using k(4) Val Cons by (auto simp: nth_Cons split: nat.splits)
    with k(1,2,3) have "np_argmin xs = Inr (Suc k) \<and> Suc k < length xs \<and> xs ! Suc k = NaN
        \<and> (\<forall>k'<Suc k. xs ! k' \<noteq> NaN)"
      using Val Cons by simp
    then show ?thesis by blast
  qed
qed

lemma np_argmin_in_range:
  assumes "xs \<noteq> []"
  shows "\<exists>r. np_argmin xs = Inr r \<and> r < length xs"
proof (cases "NaN \<in> set xs")
  case True
  from np_argmin_nan[OF this] show ?thesis by blast
next
  case False
  then obtain us where us: "xs = map Val us" using no_nan_vals by blast
  with assms have "us \<noteq> []" by simp
  from np_argmin_vals[OF this] show ?thesis unfolding us by auto
qed

section \<open>The distance of one cell\<close>







text \<open>
  The square roots are taken of \<open>a\<close> and of \<open>1 - a\<close>. When the rounded \<open>a\<close> exceeds 1
  and \<open>1 - a\<close> is negative, as binary64 gives at the cell opposite the target on the
  globe, the distance of that cell is NaN.
\<close>

lemma d_of_a_out_of_domain: "rnd fp (1 - u) < 0 \<Longrightarrow> d_of_a fp (Val u) = NaN"
  by (cases "u < 0") (simp_all add: d_of_a_def fmul_def fsub_def)

section \<open>Exact arithmetic computes the haversine formula\<close>






lemma exact_fpu_rnd [simp]: "rnd exact_fpu u = u"
  by (simp add: exact_fpu_def)




section \<open>The nearest grid point\<close>

text \<open>
  The index returned is that of the first NaN of \<open>d\<close> when there is one, and otherwise
  that of the first cell whose distance is minimal.
\<close>

lemma locator_of_flat:
  assumes "distances fp y x lat1 lon1 = Inr d" "shape d = (m, n)" "length (data d) = m * n"
    and "np_argmin (data d) = Inr r" "r < length (data d)"
  shows "lat_lon_2D_index fp y x lat1 lon1 = Inr (r div n, r mod n) \<and> r div n < m \<and> r mod n < n"
proof -
  have rlt: "r < m * n" using assms(3,5) by simp
  then have n: "0 < n" by (cases n) simp_all
  have "lat_lon_2D_index fp y x lat1 lon1 = Inr (r div n, r mod n)"
    using rlt by (simp add: lat_lon_2D_index_def assms(1,2,4) bind_err_def unravel_index_def)
  moreover have "r div n < m" using rlt n by (simp add: less_mult_imp_div_less)
  moreover have "r mod n < n" using n by simp
  ultimately show ?thesis by simp
qed

lemma locator_in_bounds:
  assumes "wf_array y" "wf_array x" "shape y = (m, n)" "shape x = (m, n)" "0 < m" "0 < n"
  shows "\<exists>i j. lat_lon_2D_index fp y x lat1 lon1 = Inr (i, j) \<and> i < m \<and> j < n"
proof -
  from distances_cells[OF assms(1-4), of fp lat1 lon1] obtain d where d:
    "distances fp y x lat1 lon1 = Inr d" "shape d = (m, n)" "length (data d) = m * n"
    by blast
  have "data d \<noteq> []" using d(3) assms(5,6) by auto
  from np_argmin_in_range[OF this] obtain r where r:
    "np_argmin (data d) = Inr r" "r < length (data d)" by blast
  from locator_of_flat[OF d r] show ?thesis by blast
qed


lemma locator_nan:
  assumes "distances fp y x lat1 lon1 = Inr d" "shape d = (m, n)" "length (data d) = m * n"
    and "NaN \<in> set (data d)"
  shows "\<exists>i j. lat_lon_2D_index fp y x lat1 lon1 = Inr (i, j) \<and> i < m \<and> j < n
           \<and> cell d i j = NaN
           \<and> (\<forall>i'<m. \<forall>j'<n. i' < i \<or> (i' = i \<and> j' < j) \<longrightarrow> cell d i' j' \<noteq> NaN)"
proof -
  from np_argmin_nan[OF assms(4)] obtain r where r:
    "np_argmin (data d) = Inr r" "r < length (data d)" "data d ! r = NaN"
    "\<forall>k<r. data d ! k \<noteq> NaN"
    by blast
  have loc: "lat_lon_2D_index fp y x lat1 lon1 = Inr (r div n, r mod n)"
    "r div n < m" "r mod n < n"
    using locator_of_flat[OF assms(1-3) r(1,2)] by simp_all
  have rlt: "r < m * n" using r(2) assms(3) by simp
  have cr: "cell d (r div n) (r mod n) = NaN"
    using cell_flat[OF assms(2) rlt] r(3) by simp
  have before: "\<forall>i'<m. \<forall>j'<n. i' < r div n \<or> (i' = r div n \<and> j' < r mod n)
                  \<longrightarrow> cell d i' j' \<noteq> NaN"
  proof (intro allI impI)
    fix i' j' assume b: "i' < m" "j' < n"
      and l: "i' < r div n \<or> (i' = r div n \<and> j' < r mod n)"
    from l have "i' * n + j' < r div n * n + r mod n"
      using flat_less_iff[OF b(2) loc(3), of i' "r div n"] by simp
    then have "i' * n + j' < r" by simp
    with r(4) show "cell d i' j' \<noteq> NaN" by (simp add: cell_def assms(2))
  qed
  from loc cr before show ?thesis by blast
qed

text \<open>
  C10: for every non-empty grid of shape \<open>(m, n)\<close> the returned index \<open>(row, column)\<close>
  satisfies \<open>row < m\<close> and \<open>column < n\<close>, so reading any array of that shape at the
  returned index succeeds.
\<close>

theorem nearest_cell_in_bounds:
  assumes "wf_array y" "wf_array x" "shape y = (m, n)" "shape x = (m, n)" "0 < m" "0 < n"
  shows "\<exists>i j. lat_lon_2D_index fp y x lat1 lon1 = Inr (i, j) \<and> i < m \<and> j < n
           \<and> (\<forall>z. shape z = (m, n) \<longrightarrow> getitem z (i, j) = Inr (cell z i j))"
proof -
  from locator_in_bounds[OF assms, of fp lat1 lon1] obtain i j where ij:
    "lat_lon_2D_index fp y x lat1 lon1 = Inr (i, j)" "i < m" "j < n"
    by blast
  have "\<forall>z. shape z = (m, n) \<longrightarrow> getitem z (i, j) = Inr (cell z i j)"
    using ij(2,3) by (simp add: getitem_def cell_def)
  with ij show ?thesis by blast
qed

theorem nearest_cell_in_bounds_witness:
  "\<exists>i j. lat_lon_2D_index exact_fpu
             \<lparr>shape = (2, 1), data = [Val 42, Val 43]\<rparr>
             \<lparr>shape = (2, 1), data = [Val (- 85), Val (- 84)]\<rparr>
             42.78 (- 84.59) = Inr (i, j)
     \<and> i < 2 \<and> j < 1
     \<and> getitem \<lparr>shape = (2, 1), data = [Val 5, NaN]\<rparr> (i, j)
         = Inr (cell \<lparr>shape = (2, 1), data = [Val 5, NaN]\<rparr> i j)"
proof -
  let ?y = "\<lparr>shape = (2, 1), data = [Val 42, Val 43]\<rparr>"
  let ?x = "\<lparr>shape = (2, 1), data = [Val (- 85), Val (- 84)]\<rparr>"
  let ?z = "\<lparr>shape = (2, 1), data = [Val 5, NaN]\<rparr>"
  have wy: "wf_array ?y" and wx: "wf_array ?x" by (simp_all add: wf_array_def)
  have sy: "shape ?y = (2, 1)" and sx: "shape ?x = (2, 1)" and sz: "shape ?z = (2, 1)"
    by simp_all
  from nearest_cell_in_bounds[OF wy wx sy sx, of exact_fpu "42.78" "- 84.59"] obtain i j where r:
    "lat_lon_2D_index exact_fpu ?y ?x 42.78 (- 84.59) = Inr (i, j)" "i < 2" "j < 1"
    "\<forall>z. shape z = (2, 1) \<longrightarrow> getitem z (i, j) = Inr (cell z i j)"
    by auto
  from r(4) sz have "getitem ?z (i, j) = Inr (cell ?z i j)" by blast
  with r(1,2,3) show ?thesis by blast
qed





text \<open>
  C3 (amended): for an empty grid (a shape with no cells) the nearest-point function
  fails, \<^verbatim>\<open>argmin\<close> raising on the empty distance array, and returns no index; for
  empty prediction and target series \<^verbatim>\<open>rmse\<close> does not fail, it returns NaN.
\<close>

theorem empty_inputs:
  assumes "wf_array y" "wf_array x" "shape y = (m, n)" "shape x = (m, n)" "m * n = 0"
  shows "lat_lon_2D_index fp y x lat1 lon1 = Inl EmptyArgminError \<and> rmse [] [] = Inr NaN"
proof -
  have "distances fp y x lat1 lon1
        = Inr (tab (m, n) (\<lambda>k. d_of_a fp (a_cell fp lat1 lon1 (data y ! k) (data x ! k))))"
    using distances_same_shape[OF assms(1,2)] assms(3,4) by simp
  then have "lat_lon_2D_index fp y x lat1 lon1 = Inl EmptyArgminError"
    using assms(5) by (simp add: lat_lon_2D_index_def bind_err_def data_tab)
  moreover have "rmse [] [] = Inr NaN"
    by (simp add: rmse_def np_binop1_def broadcast_dim_def bind_err_def np_mean_def)
  ultimately show ?thesis by simp
qed

theorem empty_inputs_witness:
  "lat_lon_2D_index exact_fpu \<lparr>shape = (0, 3), data = []\<rparr> \<lparr>shape = (0, 3), data = []\<rparr>
       42.78 (- 84.59)
     = Inl EmptyArgminError
   \<and> rmse [] [] = Inr NaN"
proof -
  let ?g = "\<lparr>shape = (0, 3), data = []\<rparr>"
  have w: "wf_array ?g" by (simp add: wf_array_def)
  have s: "shape ?g = (0, 3)" by simp
  have e: "(0::nat) * 3 = 0" by simp
  from empty_inputs[OF w w s s e] show ?thesis .
qed

text \<open>
  That \<^verbatim>\<open>rmse\<close> fails on empty series does not hold: nothing raises, the mean of
  the empty array of squares is NaN and NaN is returned.
\<close>

theorem rmse_empty_counterexample:
  "rmse [] [] = Inr NaN"
  by (simp add: rmse_def np_binop1_def broadcast_dim_def bind_err_def np_mean_def)

section \<open>Root mean square error\<close>

lemma np_binop1_same_length:
  assumes "length A = length B"
  shows "np_binop1 f A B = Inr (map (\<lambda>k. f (A ! k) (B ! k)) [0..<length A])"
proof -
  have "map (\<lambda>k. f (A ! (if length A = 1 then 0 else k)) (B ! (if length B = 1 then 0 else k)))
            [0..<length A]
        = map (\<lambda>k. f (A ! k) (B ! k)) [0..<length A]"
    using assms by (intro map_cong) auto
  then show ?thesis
    using assms by (simp add: np_binop1_def)
qed

lemma np_binop1_mismatch:
  assumes "length A \<noteq> length B" "length A \<noteq> 1" "length B \<noteq> 1"
  shows "np_binop1 f A B = Inl BroadcastError"
  using assms by (simp add: np_binop1_def broadcast_dim_def)

lemma np_binop1_left_one:
  assumes "length A = 1"
  shows "np_binop1 f A B = Inr (map (\<lambda>b. f (A ! 0) b) B)"
proof -
  have bd: "broadcast_dim (length A) (length B) = Some (length B)"
    using assms by (simp add: broadcast_dim_def)
  have "np_binop1 f A B
        = Inr (map (\<lambda>k. f (A ! 0) (B ! (if length B = 1 then 0 else k))) [0..<length B])"
    unfolding np_binop1_def bd using assms by simp
  also have "map (\<lambda>k. f (A ! 0) (B ! (if length B = 1 then 0 else k))) [0..<length B]
        = map (\<lambda>k. f (A ! 0) (B ! k)) [0..<length B]"
    by (intro map_cong) auto
  also have "\<dots> = map (\<lambda>b. f (A ! 0) b) (map (\<lambda>k. B ! k) [0..<length B])"
    by simp
  also have "\<dots> = map (\<lambda>b. f (A ! 0) b) B"
    by (simp only: map_nth)
  finally show ?thesis .
qed

lemma np_binop1_right_one:
  assumes "length B = 1"
  shows "np_binop1 f A B = Inr (map (\<lambda>a. f a (B ! 0)) A)"
proof -
  have bd: "broadcast_dim (length A) (length B) = Some (length A)"
    using assms by (simp add: broadcast_dim_def)
  have "np_binop1 f A B
        = Inr (map (\<lambda>k. f (A ! (if length A = 1 then 0 else k)) (B ! 0)) [0..<length A])"
    unfolding np_binop1_def bd using assms by simp
  also have "map (\<lambda>k. f (A ! (if length A = 1 then 0 else k)) (B ! 0)) [0..<length A]
        = map (\<lambda>k. f (A ! k) (B ! 0)) [0..<length A]"
    by (intro map_cong) auto
  also have "\<dots> = map (\<lambda>a. f a (B ! 0)) (map (\<lambda>k. A ! k) [0..<length A])"
    by simp
  also have "\<dots> = map (\<lambda>a. f a (B ! 0)) A"
    by (simp only: map_nth)
  finally show ?thesis .
qed

lemma rmse_same_length:
  assumes "length A = length B"
  shows "rmse A B = Inr (np_sqrt (np_mean (map (\<lambda>k. (A ! k - B ! k)\<^sup>2) [0..<length A])))"
  by (simp add: rmse_def np_binop1_same_length[OF assms] bind_err_def comp_def)

text \<open>
  C2 (amended): for two series of unequal length, \<^verbatim>\<open>rmse\<close> fails with the broadcast
  error when neither length is 1; when one of them has length 1 its single element
  is broadcast against the other series and the result is that of the equal-length
  call.
\<close>

theorem rmse_unequal_lengths:
  assumes "length A \<noteq> length B"
  shows "(length A \<noteq> 1 \<and> length B \<noteq> 1 \<longrightarrow> rmse A B = Inl BroadcastError)
       \<and> (length A = 1 \<longrightarrow> rmse A B = rmse (replicate (length B) (A ! 0)) B)
       \<and> (length B = 1 \<longrightarrow> rmse A B = rmse A (replicate (length A) (B ! 0)))"
proof (intro conjI impI)
  assume "length A \<noteq> 1 \<and> length B \<noteq> 1"
  then show "rmse A B = Inl BroadcastError"
    using assms by (simp add: rmse_def np_binop1_mismatch bind_err_def)
next
  assume a: "length A = 1"
  have "map (\<lambda>k. replicate (length B) (A ! 0) ! k - B ! k) [0..<length B]
        = map (\<lambda>k. A ! 0 - B ! k) [0..<length B]"
    by (intro map_cong) auto
  also have "\<dots> = map (\<lambda>b. A ! 0 - b) (map (\<lambda>k. B ! k) [0..<length B])"
    by simp
  also have "\<dots> = map (\<lambda>b. A ! 0 - b) B"
    by (simp only: map_nth)
  finally show "rmse A B = rmse (replicate (length B) (A ! 0)) B"
    by (simp add: rmse_def np_binop1_left_one[OF a] np_binop1_same_length)
next
  assume b: "length B = 1"
  have "map (\<lambda>k. A ! k - replicate (length A) (B ! 0) ! k) [0..<length A]
        = map (\<lambda>k. A ! k - B ! 0) [0..<length A]"
    by (intro map_cong) auto
  also have "\<dots> = map (\<lambda>a. a - B ! 0) (map (\<lambda>k. A ! k) [0..<length A])"
    by simp
  also have "\<dots> = map (\<lambda>a. a - B ! 0) A"
    by (simp only: map_nth)
  finally show "rmse A B = rmse A (replicate (length A) (B ! 0))"
    by (simp add: rmse_def np_binop1_right_one[OF b] np_binop1_same_length)
qed

theorem rmse_unequal_lengths_witness:
  "rmse [1, 2] [1, 2, 3] = Inl BroadcastError
   \<and> rmse [2] [0, 0, 0] = rmse [2, 2, 2] [0, 0, 0]
   \<and> rmse [0, 0, 0] [2] = rmse [0, 0, 0] [2, 2, 2]"
proof -
  have r3: "replicate (length [0, 0, 0::real]) (2::real) = [2, 2, 2]"
    by (simp add: numeral_3_eq_3)
  have "rmse [1, 2] [1, 2, 3] = Inl BroadcastError"
    using rmse_unequal_lengths[of "[1, 2]" "[1, 2, 3]"] by simp
  moreover have "rmse [2] [0, 0, 0] = rmse [2, 2, 2] [0, 0, 0]"
    using rmse_unequal_lengths[of "[2]" "[0, 0, 0]"] r3 by simp
  moreover have "rmse [0, 0, 0] [2] = rmse [0, 0, 0] [2, 2, 2]"
    using rmse_unequal_lengths[of "[0, 0, 0]" "[2]"] r3 by simp
  ultimately show ?thesis by simp
qed

text \<open>
  That every pair of unequal lengths fails does not hold: a series of length 1 is
  broadcast against a series of any other length, and a result is returned.
\<close>

theorem rmse_broadcast_counterexample:
  "length [2::real] \<noteq> length [0, 0, 0::real] \<and> rmse [2] [0, 0, 0] = Inr (Val 2)"
  by (simp add: rmse_def np_binop1_left_one bind_err_def np_mean_def)

text \<open>
  C6: for every pair of series of equal length, \<^verbatim>\<open>rmse\<close> returns a result and the
  result is the same when predictions and targets are swapped, although the
  elementwise error \<^verbatim>\<open>predictions - targets\<close> changes sign.
\<close>

theorem rmse_swap:
  assumes "length A = length B"
  shows "rmse A B = rmse B A \<and> (\<exists>r. rmse A B = Inr r)
         \<and> (\<exists>e. np_binop1 (-) A B = Inr e \<and> np_binop1 (-) B A = Inr (map uminus e))"
proof -
  have "map (\<lambda>k. (A ! k - B ! k)\<^sup>2) [0..<length A] = map (\<lambda>k. (B ! k - A ! k)\<^sup>2) [0..<length B]"
    using assms by (simp add: power2_commute)
  then have "rmse A B = rmse B A"
    using rmse_same_length[OF assms] rmse_same_length[OF assms[symmetric]] by simp
  moreover have "\<exists>r. rmse A B = Inr r"
    using rmse_same_length[OF assms] by simp
  moreover have "np_binop1 (-) B A = Inr (map uminus (map (\<lambda>k. A ! k - B ! k) [0..<length A]))"
    using np_binop1_same_length[OF assms[symmetric], of "(-)"] assms by (simp add: comp_def)
  ultimately show ?thesis
    using np_binop1_same_length[OF assms, of "(-)"] by simp
qed

theorem rmse_swap_witness:
  "rmse [1, 2, 3] [3, 1, 0] = rmse [3, 1, 0] [1, 2, 3]
   \<and> (\<exists>r. rmse [1, 2, 3] [3, 1, 0] = Inr r)
   \<and> (\<exists>e. np_binop1 (-) [1, 2, 3] [3, 1, 0] = Inr e
          \<and> np_binop1 (-) [3, 1, 0] [1, 2, 3] = Inr (map uminus e))"
proof -
  have h: "length [1, 2, 3::real] = length [3, 1, 0::real]" by simp
  show ?thesis by (rule rmse_swap[OF h])
qed

text \<open>
  C7: for every non-empty series, the RMSE of the series against itself is exactly 0.
\<close>

theorem rmse_identical:
  assumes "A \<noteq> []"
  shows "rmse A A = Inr (Val 0)"
proof -
  have "map (\<lambda>k. (A ! k - A ! k)\<^sup>2) [0..<length A] = map (\<lambda>k. 0) [0..<length A]"
    by simp
  then have "np_mean (map (\<lambda>k. (A ! k - A ! k)\<^sup>2) [0..<length A]) = Val 0"
    using assms by (simp add: np_mean_def)
  then show ?thesis
    using rmse_same_length[of A A] by simp
qed

theorem rmse_identical_witness:
  "rmse [1, 2, 3] [1, 2, 3] = Inr (Val 0)"
  using rmse_identical[of "[1, 2, 3]"] by simp

section \<open>What holds in exact arithmetic only\<close>

text \<open>
  Two facts of exact arithmetic that do not carry over to the binary64 numbers the
  notebook computes with, and so say nothing about the values it computes.

  A sum of reals does not depend on the order of its terms, hence neither does
  \<^const>\<open>rmse\<close>; a binary64 sum rounds after every addition and can change in its
  last bits when the terms are reordered.
\<close>

lemma rmse_permutation_exact:
  assumes "length A = length B" "mset p = mset [0..<length A]"
  shows "rmse (map (\<lambda>i. A ! i) p) (map (\<lambda>i. B ! i) p) = rmse A B"
proof -
  let ?f = "\<lambda>k. (A ! k - B ! k)\<^sup>2"
  have len: "length p = length A"
    using assms(2) by (metis length_upt mset_eq_length minus_nat.diff_0)
  have in_range: "\<forall>k<length p. p ! k < length A"
    using assms(2) by (metis atLeastLessThan_iff nth_mem set_mset_mset set_upt)
  have "map (\<lambda>k. (map (\<lambda>i. A ! i) p ! k - map (\<lambda>i. B ! i) p ! k)\<^sup>2) [0..<length p]
        = map (\<lambda>k. ?f (p ! k)) [0..<length p]"
    by (intro map_cong) auto
  also have "\<dots> = map ?f (map (\<lambda>k. p ! k) [0..<length p])"
    by simp
  also have "\<dots> = map ?f p"
    by (simp only: map_nth)
  finally have sq: "map (\<lambda>k. (map (\<lambda>i. A ! i) p ! k - map (\<lambda>i. B ! i) p ! k)\<^sup>2) [0..<length p]
        = map ?f p" .
  have "mset (map ?f p) = mset (map ?f [0..<length A])"
    using assms(2) by (simp only: mset_map)
  then have "sum_list (map ?f p) = sum_list (map ?f [0..<length A])"
    by (metis sum_mset_sum_list)
  moreover have "p = [] \<longleftrightarrow> A = []"
    using len by (metis length_0_conv)
  ultimately have "np_mean (map ?f p) = np_mean (map ?f [0..<length A])"
    using len by (simp add: np_mean_def)
  then show ?thesis
    using rmse_same_length[OF assms(1)] rmse_same_length[of "map (\<lambda>i. A ! i) p" "map (\<lambda>i. B ! i) p"] sq
    by simp
qed

text \<open>
  The sine of \<open>pi\<close> is 0, so a cell 360 degrees of longitude away from the target, at
  the target's latitude, is at distance 0. In binary64 \<^verbatim>\<open>rad * 360 / 2\<close> is a double
  close to \<open>pi\<close>, whose sine is about \<open>1.2e-16\<close> and not 0, and the computed distance
  is of the order of \<open>1e-9\<close> m.
\<close>

lemma haversine_period_exact: "haversine_spec lat1 lon1 lat1 (lon1 + 360) = 0"
  by (simp add: haversine_spec_def haversine_a_def np_arctan2_def)

end
